theory Spec2Isabelle
  imports Complex_Main "HOL-Library.Multiset"
begin

section \<open>Repository analysis stage of the code-grading pipeline\<close>

text \<open>
  The development embeds \<^verbatim>\<open>agents/agent2/code_analyzer.py\<close>,
  \<^verbatim>\<open>git_client.py\<close>, \<^verbatim>\<open>worker.py\<close> and
  \<^verbatim>\<open>runner.py\<close>. Everything the Python code obtains from outside (file
  contents, the result of \<^verbatim>\<open>ast.parse\<close>, the outcome of
  \<^verbatim>\<open>git clone\<close>) is an explicit input of the model; every exception the code
  can meet is a value of type \<open>pyexc\<close>, and a function that can raise returns
  \<open>pyexc + 'a\<close> with \<open>Inl\<close> for the exception.
\<close>

subsection \<open>Exceptions and values\<close>

text \<open>
  The exception classes that matter to the handlers of the source. Each constructor
  stands for the class and its subclasses; all of them derive from
  \<^verbatim>\<open>Exception\<close>, which is what \<^verbatim>\<open>except Exception\<close> catches.
\<close>

datatype pyexc =
    KeyError
  | OSError
  | SyntaxError
  | UnicodeDecodeError
  | ValueError
  | RecursionError
  | CalledProcessError
  | TimeoutExpired
  | OtherException

text \<open>
  A Python \<^verbatim>\<open>float\<close> is represented by the rational number it denotes (only
  finite doubles occur below). Dictionaries with string keys are association lists,
  looked up with \<open>map_of\<close>.
\<close>

datatype pyval = PInt int | PStr string | PFloat rat

type_synonym py_dict = "(string \<times> pyval) list"

subsection \<open>Line classifier: \<^verbatim>\<open>CodeAnalyzer.count_code_lines\<close>\<close>

text \<open>
  The text of a file as \<^verbatim>\<open>f.read()\<close> returns it: a list of Unicode code
  points, decoded with \<^verbatim>\<open>errors="ignore"\<close> and with line ends already
  translated to code point 10. A path that \<^verbatim>\<open>open\<close> cannot read is
  \<open>Unreadable\<close> with the exception raised.
\<close>

type_synonym pystr = "nat list"

datatype py_file = Unreadable pyexc | Readable pystr

text \<open>
  A syntax tree as \<^verbatim>\<open>ast.walk\<close> sees it: the node's class name, its
  \<^verbatim>\<open>lineno\<close> attribute when the node has one, and its child nodes.
\<close>

datatype ast = Node (cls: string) (lineno: "int option") (children: "ast list")

text \<open>
  \<^verbatim>\<open>ast.walk\<close> is breadth first: it pops the first node of a queue, appends the
  node's children to the queue and yields the node.
\<close>

function walk_queue :: "ast list \<Rightarrow> ast list" where
  "walk_queue [] = []"
| "walk_queue (n # todo) = n # walk_queue (todo @ children n)"
  by pat_completeness auto
termination
proof (relation "measure (\<lambda>q. sum_list (map size q))")
  show "wf (measure (\<lambda>q. sum_list (map size q)))" by simp
next
  fix n :: ast and todo :: "ast list"
  have "sum_list (map size (children n)) < size n"
    by (cases n) (simp add: size_list_conv_sum_list)
  then show "(todo @ children n, n # todo) \<in> measure (\<lambda>q. sum_list (map size q))"
    by simp
qed

definition walk :: "ast \<Rightarrow> ast list" where
  "walk tree = walk_queue [tree]"

text \<open>
  The loop \<^verbatim>\<open>for node in ast.walk(tree): if hasattr(node, "lineno"):
  code_lines.add(node.lineno)\<close>; the set is kept as a list without duplicates.
\<close>

fun add_linenos :: "ast list \<Rightarrow> int list \<Rightarrow> int list" where
  "add_linenos [] code_lines = code_lines"
| "add_linenos (node # nodes) code_lines =
     (case lineno node of
        None \<Rightarrow> add_linenos nodes code_lines
      | Some l \<Rightarrow> add_linenos nodes (List.insert l code_lines))"

definition code_lines_of :: "ast \<Rightarrow> int list" where
  "code_lines_of tree = add_linenos (walk tree) []"

text \<open>
  Iterating a text file yields its lines, each ending with its newline (the last one
  possibly without).
\<close>

fun file_lines :: "pystr \<Rightarrow> pystr list" where
  "file_lines [] = []"
| "file_lines (c # cs) =
     (if c = 10 then [c] # file_lines cs
      else (case file_lines cs of
              [] \<Rightarrow> [[c]]
            | l # ls \<Rightarrow> (c # l) # ls))"

text \<open>The code points for which \<^verbatim>\<open>str.isspace\<close> holds; \<^verbatim>\<open>str.strip()\<close> removes them at both ends.\<close>

definition is_space :: "nat \<Rightarrow> bool" where
  "is_space c \<longleftrightarrow>
     (9 \<le> c \<and> c \<le> 13) \<or> (28 \<le> c \<and> c \<le> 32) \<or> c = 133 \<or> c = 160 \<or> c = 5760
     \<or> (8192 \<le> c \<and> c \<le> 8202) \<or> c = 8232 \<or> c = 8233 \<or> c = 8239 \<or> c = 8287
     \<or> c = 12288"

definition strip :: "pystr \<Rightarrow> pystr" where
  "strip s = rev (dropWhile is_space (rev (dropWhile is_space s)))"

text \<open>
  \<^verbatim>\<open>_count_lines_simple\<close>: \<^verbatim>\<open>sum(1 for line in f if line.strip())\<close>, and 0
  when anything raises.
\<close>

definition count_lines_simple :: "py_file \<Rightarrow> int" where
  "count_lines_simple file_path =
     (case file_path of
        Unreadable e \<Rightarrow> 0
      | Readable content \<Rightarrow> int (length (filter (\<lambda>line. strip line \<noteq> []) (file_lines content))))"

text \<open>
  \<^verbatim>\<open>count_code_lines\<close>. The parser \<^verbatim>\<open>ast.parse\<close> is a parameter: it maps
  the text to a tree or raises. The body of the \<^verbatim>\<open>try\<close> is
  \<open>count_code_lines_try\<close>; the handler catches \<^verbatim>\<open>SyntaxError\<close> and
  \<^verbatim>\<open>UnicodeDecodeError\<close> only, every other exception leaves the function.
\<close>

definition count_code_lines_try :: "(pystr \<Rightarrow> pyexc + ast) \<Rightarrow> py_file \<Rightarrow> pyexc + int" where
  "count_code_lines_try ast_parse file_path =
     (case file_path of
        Unreadable e \<Rightarrow> Inl e
      | Readable content \<Rightarrow>
          (case ast_parse content of
             Inl e \<Rightarrow> Inl e
           | Inr tree \<Rightarrow> Inr (int (length (code_lines_of tree)))))"

definition count_code_lines :: "(pystr \<Rightarrow> pyexc + ast) \<Rightarrow> py_file \<Rightarrow> pyexc + int" where
  "count_code_lines ast_parse file_path =
     (case count_code_lines_try ast_parse file_path of
        Inr n \<Rightarrow> Inr n
      | Inl e \<Rightarrow>
          if e = SyntaxError \<or> e = UnicodeDecodeError
          then Inr (count_lines_simple file_path)
          else Inl e)"

subsection \<open>Aggregator: \<^verbatim>\<open>CodeAnalyzer.analyze_repository\<close>\<close>

text \<open>The dictionary returned by \<^verbatim>\<open>analyze_repository\<close>, with its four fixed keys.\<close>

record analysis =
  total_lines :: int
  lines_within_limit :: int
  files_over_limit :: int
  total_files :: int

text \<open>
  The loop over \<^verbatim>\<open>python_files\<close>, with the three counters as the state; an
  exception of \<^verbatim>\<open>count_code_lines\<close> ends it.
\<close>

fun analyze_loop ::
  "(pystr \<Rightarrow> pyexc + ast) \<Rightarrow> py_file list \<Rightarrow> int \<times> int \<times> int \<Rightarrow> pyexc + int \<times> int \<times> int" where
  "analyze_loop ast_parse [] acc = Inr acc"
| "analyze_loop ast_parse (py_file # rest) (sum_lines, in_limit, n_over) =
     (case count_code_lines ast_parse py_file of
        Inl e \<Rightarrow> Inl e
      | Inr line_count \<Rightarrow>
          analyze_loop ast_parse rest
            (sum_lines + line_count,
             if line_count \<le> 150 then in_limit + line_count else in_limit,
             if line_count \<le> 150 then n_over else n_over + 1))"

text \<open>
  \<^verbatim>\<open>find_python_files\<close> is \<^verbatim>\<open>list(repo_dir.rglob("*.py"))\<close>: a repository
  directory is given by what that enumeration yields, or by the exception it raises.
\<close>

type_synonym repo_dir = "pyexc + py_file list"

definition find_python_files :: "repo_dir \<Rightarrow> pyexc + py_file list" where
  "find_python_files repo = repo"

definition analyze_repository :: "(pystr \<Rightarrow> pyexc + ast) \<Rightarrow> repo_dir \<Rightarrow> pyexc + analysis" where
  "analyze_repository ast_parse repo =
     (case find_python_files repo of
        Inl e \<Rightarrow> Inl e
      | Inr python_files \<Rightarrow>
          (case analyze_loop ast_parse python_files (0, 0, 0) of
             Inl e \<Rightarrow> Inl e
           | Inr (sum_lines, in_limit, n_over) \<Rightarrow>
               Inr \<lparr>total_lines = sum_lines, lines_within_limit = in_limit,
                    files_over_limit = n_over, total_files = int (length python_files)\<rparr>))"

subsection \<open>Python floats\<close>

text \<open>
  The grade is computed with Python floats, which are IEEE 754 binary64 numbers. A
  finite double is represented by the rational it denotes, and every float operation is
  the exact operation followed by \<open>binary64\<close>, rounding to the nearest double with
  ties to the even significand, symmetrically in the sign. For \<open>q > 0\<close>,
  \<open>float_exponent q\<close> is \<open>\<lfloor>log\<^sub>2 q\<rfloor>\<close>; below \<open>2\<^sup>-\<^sup>1\<^sup>0\<^sup>2\<^sup>2\<close> the doubles are
  subnormal and equally spaced. Overflow (a magnitude of \<open>2\<^sup>1\<^sup>0\<^sup>2\<^sup>4\<close> or more) is
  outside the model; the grades below never exceed 100.
\<close>

fun flog2 :: "nat \<Rightarrow> nat" where
  "flog2 n = (if n < 2 then 0 else Suc (flog2 (n div 2)))"

definition clog2 :: "nat \<Rightarrow> nat" where
  "clog2 n = (if n \<le> 1 then 0 else Suc (flog2 (n - 1)))"

definition float_exponent :: "rat \<Rightarrow> int" where
  "float_exponent q =
     (if 1 \<le> q then int (flog2 (nat \<lfloor>q\<rfloor>)) else - int (clog2 (nat \<lceil>1 / q\<rceil>)))"

definition round_half_even :: "rat \<Rightarrow> int" where
  "round_half_even x =
     (let f = \<lfloor>x\<rfloor>; r = x - of_int f
      in if r < 1 / 2 then f else if 1 / 2 < r then f + 1 else if even f then f else f + 1)"

definition binary64 :: "rat \<Rightarrow> rat" where
  "binary64 q =
     (if q = 0 then 0
      else let e = max (float_exponent \<bar>q\<bar>) (- 1022);
               ulp = 2 powi (e - 52)
           in sgn q * (of_int (round_half_even (\<bar>q\<bar> / ulp)) * ulp))"

text \<open>
  \<^verbatim>\<open>a / b\<close> on Python integers is the correctly rounded quotient, \<^verbatim>\<open>x * y\<close>
  on floats the correctly rounded product, and \<^verbatim>\<open>round(x, ndigits)\<close> rounds the
  exact value of \<open>x\<close> to \<open>ndigits\<close> decimals, half to even, and returns the double
  nearest to that decimal (CPython's correctly rounded \<^verbatim>\<open>float.__round__\<close>).
\<close>

definition py_truediv :: "int \<Rightarrow> int \<Rightarrow> rat" where
  "py_truediv a b = binary64 (of_int a / of_int b)"

definition py_fmul :: "rat \<Rightarrow> rat \<Rightarrow> rat" where
  "py_fmul x y = binary64 (x * y)"

definition py_round :: "rat \<Rightarrow> nat \<Rightarrow> rat" where
  "py_round x ndigits = binary64 (of_int (round_half_even (x * 10 ^ ndigits)) / 10 ^ ndigits)"

subsection \<open>Grade: \<^verbatim>\<open>CodeAnalyzer.calculate_grade\<close>\<close>

definition calculate_grade :: "analysis \<Rightarrow> rat" where
  "calculate_grade a =
     (if total_lines a = 0 then 0
      else let ratio = py_truediv (lines_within_limit a) (total_lines a)
           in py_round (py_fmul ratio 100) 2)"

text \<open>
  The formula as the specification words it, \<^verbatim>\<open>round(100 * lines_within_limit /
  total_lines, 2)\<close>: the product is taken first, on integers, and divided once.
\<close>

definition grade_as_specified :: "analysis \<Rightarrow> rat" where
  "grade_as_specified a =
     (if total_lines a = 0 then 0
      else py_round (py_truediv (100 * lines_within_limit a) (total_lines a)) 2)"

subsection \<open>Git client: \<^verbatim>\<open>GitClient.clone_repo\<close> and \<^verbatim>\<open>cleanup_repo\<close>\<close>

text \<open>
  The file system is the set of scratch directories that exist. What the outside world
  does for one job is a \<open>job_world\<close>: the directory \<^verbatim>\<open>tempfile.mkdtemp\<close>
  creates (or the exception it raises), the exception of
  \<^verbatim>\<open>subprocess.run(["git", "clone", ...], check=True, timeout=300)\<close> if there is one
  (\<^verbatim>\<open>CalledProcessError\<close> for a non-zero exit, \<^verbatim>\<open>TimeoutExpired\<close> after 300
  seconds), the Python files of the checkout, and whether
  \<^verbatim>\<open>shutil.rmtree(..., ignore_errors=True)\<close> manages to remove the directory (its
  errors are ignored, so it never raises).
\<close>

type_synonym path = string

type_synonym filesystem = "path set"

record job_world =
  mkdtemp_result :: "pyexc + path"
  git_clone_raises :: "pyexc option"
  checkout :: repo_dir
  rmtree_removes :: bool

text \<open>
  \<^verbatim>\<open>clone_repo(repo_url)\<close> as the worker calls it, with \<^verbatim>\<open>target_dir=None\<close>:
  the directory is created first, then the clone runs into it.
  \<^verbatim>\<open>cleanup_repo\<close> tests \<^verbatim>\<open>repo_dir.exists()\<close>, which is taken to answer
  without raising, and then calls \<^verbatim>\<open>shutil.rmtree\<close>.
\<close>

definition clone_repo :: "job_world \<Rightarrow> filesystem \<Rightarrow> pyval \<Rightarrow> (pyexc + path) \<times> filesystem" where
  "clone_repo w fs repo_url =
     (case mkdtemp_result w of
        Inl e \<Rightarrow> (Inl e, fs)
      | Inr target_dir \<Rightarrow>
          (case git_clone_raises w of
             Some e \<Rightarrow> (Inl e, insert target_dir fs)
           | None \<Rightarrow> (Inr target_dir, insert target_dir fs)))"

definition cleanup_repo :: "job_world \<Rightarrow> filesystem \<Rightarrow> path \<Rightarrow> filesystem" where
  "cleanup_repo w fs repo_dir =
     (if repo_dir \<in> fs
      then (if rmtree_removes w then fs - {repo_dir} else fs)
      else fs)"

subsection \<open>Worker: \<^verbatim>\<open>RepoWorker.process\<close>\<close>

text \<open>The two dictionary literals that the worker and the runner build.\<close>

definition ready_result :: "pyval \<Rightarrow> rat \<Rightarrow> py_dict" where
  "ready_result repo_id grade =
     [(''ID'', repo_id), (''grade'', PFloat grade), (''Status'', PStr ''ready'')]"

definition error_result :: "pyval \<Rightarrow> py_dict" where
  "error_result repo_id =
     [(''ID'', repo_id), (''grade'', PFloat 0), (''Status'', PStr ''error'')]"

text \<open>
  The body of the \<^verbatim>\<open>try\<close> block: the grade or the exception, the value of the
  variable \<^verbatim>\<open>repo_dir\<close> when the block is left (\<open>None\<close> while
  \<^verbatim>\<open>clone_repo\<close> has not returned), and the file system.
\<close>

definition process_try ::
  "(pystr \<Rightarrow> pyexc + ast) \<Rightarrow> job_world \<Rightarrow> filesystem \<Rightarrow> pyval
     \<Rightarrow> (pyexc + rat) \<times> path option \<times> filesystem" where
  "process_try ast_parse w fs repo_url =
     (case clone_repo w fs repo_url of
        (Inl e, fs1) \<Rightarrow> (Inl e, None, fs1)
      | (Inr repo_dir, fs1) \<Rightarrow>
          (case analyze_repository ast_parse (checkout w) of
             Inl e \<Rightarrow> (Inl e, Some repo_dir, fs1)
           | Inr a \<Rightarrow> (Inr (calculate_grade a), Some repo_dir, fs1)))"

text \<open>
  \<^verbatim>\<open>process\<close>: the two subscripts \<^verbatim>\<open>record["ID"]\<close> and
  \<^verbatim>\<open>record["Repo"]\<close> stand before the \<^verbatim>\<open>try\<close>, so a missing key leaves the
  function as a \<^verbatim>\<open>KeyError\<close>. The handler \<^verbatim>\<open>except Exception\<close> turns every
  exception of the body into the error dictionary; the \<^verbatim>\<open>finally\<close> clause calls
  \<^verbatim>\<open>cleanup_repo\<close> when \<^verbatim>\<open>repo_dir\<close> is set.
\<close>

definition process ::
  "(pystr \<Rightarrow> pyexc + ast) \<Rightarrow> job_world \<Rightarrow> filesystem \<Rightarrow> py_dict
     \<Rightarrow> (pyexc + py_dict) \<times> filesystem" where
  "process ast_parse w fs job_record =
     (case map_of job_record ''ID'' of
        None \<Rightarrow> (Inl KeyError, fs)
      | Some repo_id \<Rightarrow>
          (case map_of job_record ''Repo'' of
             None \<Rightarrow> (Inl KeyError, fs)
           | Some repo_url \<Rightarrow>
               (case process_try ast_parse w fs repo_url of
                  (outcome, repo_dir, fs1) \<Rightarrow>
                    (Inr (case outcome of
                            Inr grade \<Rightarrow> ready_result repo_id grade
                          | Inl e \<Rightarrow> error_result repo_id),
                     (case repo_dir of
                        None \<Rightarrow> fs1
                      | Some d \<Rightarrow> cleanup_repo w fs1 d)))))"

subsection \<open>Pool: \<^verbatim>\<open>Agent2._process_parallel\<close>\<close>

text \<open>
  A finished future is the outcome of \<^verbatim>\<open>worker.process(repo)\<close> together with the
  value stored for it in the dictionary \<^verbatim>\<open>futures\<close>. The submission loop runs job
  \<open>i\<close> in the world \<open>world i\<close>; the subscript \<^verbatim>\<open>repo["ID"]\<close> of the loop
  raises \<^verbatim>\<open>KeyError\<close> out of the pool when the key is missing. The call
  \<^verbatim>\<open>ensure_directories()\<close> before the pool starts is not part of the model.
\<close>

type_synonym future = "(pyexc + py_dict) \<times> pyval"

fun submit_all ::
  "(pystr \<Rightarrow> pyexc + ast) \<Rightarrow> (nat \<Rightarrow> job_world) \<Rightarrow> filesystem \<Rightarrow> nat \<Rightarrow> py_dict list
     \<Rightarrow> (pyexc + future list) \<times> filesystem" where
  "submit_all ast_parse world fs i [] = (Inr [], fs)"
| "submit_all ast_parse world fs i (repo # repos) =
     (case process ast_parse (world i) fs repo of
        (outcome, fs1) \<Rightarrow>
          (case map_of repo ''ID'' of
             None \<Rightarrow> (Inl KeyError, fs1)
           | Some repo_id \<Rightarrow>
               (case submit_all ast_parse world fs1 (Suc i) repos of
                  (Inl e, fs2) \<Rightarrow> (Inl e, fs2)
                | (Inr futures, fs2) \<Rightarrow> (Inr ((outcome, repo_id) # futures), fs2))))"

text \<open>
  \<^verbatim>\<open>as_completed(futures)\<close> yields every future once, in the order of completion:
  \<open>order\<close> lists the submission indices in that order.
\<close>

definition as_completed :: "future list \<Rightarrow> nat list \<Rightarrow> future list" where
  "as_completed futures order = map (\<lambda>k. futures ! k) order"

text \<open>
  The collection loop: a truthy result (a non-empty dictionary) is appended, an exception
  of \<^verbatim>\<open>future.result()\<close> is replaced by the error dictionary with the stored ID.
\<close>

fun collect_results :: "future list \<Rightarrow> py_dict list \<Rightarrow> py_dict list" where
  "collect_results [] results = results"
| "collect_results ((outcome, repo_id) # rest) results =
     (case outcome of
        Inr result \<Rightarrow>
          collect_results rest (if result \<noteq> [] then results @ [result] else results)
      | Inl e \<Rightarrow> collect_results rest (results @ [error_result repo_id]))"

definition process_parallel ::
  "(pystr \<Rightarrow> pyexc + ast) \<Rightarrow> (nat \<Rightarrow> job_world) \<Rightarrow> filesystem \<Rightarrow> py_dict list \<Rightarrow> nat list
     \<Rightarrow> (pyexc + py_dict list) \<times> filesystem" where
  "process_parallel ast_parse world fs repos order =
     (case submit_all ast_parse world fs 0 repos of
        (Inl e, fs1) \<Rightarrow> (Inl e, fs1)
      | (Inr futures, fs1) \<Rightarrow> (Inr (collect_results (as_completed futures order) []), fs1))"

subsection \<open>Example inputs\<close>

text \<open>
  A file of \<open>k\<close> lines \<^verbatim>\<open>pass\<close>, and the tree \<^verbatim>\<open>ast.parse\<close> builds for it:
  a \<^verbatim>\<open>Module\<close> without line number and one \<^verbatim>\<open>Pass\<close> statement per line.
  \<open>pass_parse\<close> is a parser that is right on these files.
\<close>

definition pass_source :: "nat \<Rightarrow> pystr" where
  "pass_source k = concat (replicate k [112, 97, 115, 115, 10])"

definition pass_module :: "nat \<Rightarrow> ast" where
  "pass_module k =
     Node ''Module'' None (map (\<lambda>i. Node ''Pass'' (Some (int i)) []) [1..<Suc k])"

definition pass_parse :: "pystr \<Rightarrow> pyexc + ast" where
  "pass_parse content = Inr (pass_module (length (file_lines content)))"

text \<open>
  The two-line file
  \<^verbatim>\<open>"""Doc."""\<close> /
  \<^verbatim>\<open>x = 1\<close>
  and the tree CPython's \<^verbatim>\<open>ast.parse\<close> returns for it:
  \<^verbatim>\<open>Module(body=[Expr(value=Constant('Doc.')), Assign(targets=[Name('x', Store())],
  value=Constant(1))])\<close>, where the statement \<^verbatim>\<open>Expr\<close> and its constant carry
  \<^verbatim>\<open>lineno=1\<close> and the assignment, its target and its value \<^verbatim>\<open>lineno=2\<close>.
\<close>

definition docstring_source :: pystr where
  "docstring_source =
     [34, 34, 34, 68, 111, 99, 46, 34, 34, 34, 10, 120, 32, 61, 32, 49, 10]"

definition docstring_module :: ast where
  "docstring_module =
     Node ''Module'' None
       [Node ''Expr'' (Some 1) [Node ''Constant'' (Some 1) []],
        Node ''Assign'' (Some 2)
          [Node ''Name'' (Some 2) [Node ''Store'' None []],
           Node ''Constant'' (Some 2) []]]"



subsection \<open>What the pool appends for a job\<close>

text \<open>
  The dictionary that the collection loop appends for a future whose result is truthy,
  and the future of a job: the outcome of \<^verbatim>\<open>process\<close> (which does not depend on
  the file system it starts from) with the ID stored by the submission loop.
\<close>

definition future_entry :: "future \<Rightarrow> py_dict" where
  "future_entry f =
     (case f of
        (Inr result, repo_id) \<Rightarrow> result
      | (Inl e, repo_id) \<Rightarrow> error_result repo_id)"

definition job_future :: "(pystr \<Rightarrow> pyexc + ast) \<Rightarrow> job_world \<Rightarrow> py_dict \<Rightarrow> future" where
  "job_future ast_parse w repo =
     (fst (process ast_parse w {} repo), the (map_of repo ''ID''))"

text \<open>
  Three jobs, as in the sample data of the test fixtures. In \<open>example_world\<close> the
  second clone runs into the 300 second timeout and the other two succeed, each checkout
  holding one file of two code lines; in \<open>all_cloned_world\<close> all three succeed.
\<close>

definition example_repos :: "py_dict list" where
  "example_repos =
     [[(''ID'', PInt 1), (''Repo'', PStr ''https://github.com/user/repo1'')],
      [(''ID'', PInt 2), (''Repo'', PStr ''https://github.com/user/repo2'')],
      [(''ID'', PInt 3), (''Repo'', PStr ''https://github.com/user/repo3'')]]"

definition cloned_world :: "path \<Rightarrow> py_file list \<Rightarrow> job_world" where
  "cloned_world d files =
     \<lparr>mkdtemp_result = Inr d, git_clone_raises = None, checkout = Inr files,
      rmtree_removes = True\<rparr>"

definition timeout_world :: "path \<Rightarrow> job_world" where
  "timeout_world d =
     \<lparr>mkdtemp_result = Inr d, git_clone_raises = Some TimeoutExpired, checkout = Inr [],
      rmtree_removes = True\<rparr>"

definition example_world :: "nat \<Rightarrow> job_world" where
  "example_world i =
     (if i = 1 then timeout_world ''/tmp/repo_b''
      else cloned_world ''/tmp/repo_a'' [Readable (pass_source 2)])"


section \<open>Properties\<close>

subsection \<open>Line classifier\<close>

lemma count_lines_simple_nonneg: "0 \<le> count_lines_simple f"
  by (cases f) (simp_all add: count_lines_simple_def)

lemma code_lines_count_nonneg:
  "count_code_lines ast_parse f = Inr n \<Longrightarrow> 0 \<le> n"
  by (auto simp: count_code_lines_def count_code_lines_try_def count_lines_simple_nonneg
      split: sum.splits py_file.splits if_splits)

lemma add_linenos_set:
  "set (add_linenos nodes acc) = set acc \<union> {l. \<exists>n \<in> set nodes. lineno n = Some l}"
  by (induction nodes arbitrary: acc) (auto split: option.splits)

lemma add_linenos_distinct:
  "distinct acc \<Longrightarrow> distinct (add_linenos nodes acc)"
  by (induction nodes arbitrary: acc) (auto split: option.splits)

text \<open>
  On a file that parses, the counter returns the number of distinct line numbers carried
  by the nodes of the tree.
\<close>

lemma code_lines_of_card:
  "length (code_lines_of tree) = card {l. \<exists>n \<in> set (walk tree). lineno n = Some l}"
proof -
  have "distinct (code_lines_of tree)"
    by (simp add: code_lines_of_def add_linenos_distinct)
  then have "length (code_lines_of tree) = card (set (code_lines_of tree))"
    by (simp add: distinct_card)
  then show ?thesis by (simp add: code_lines_of_def add_linenos_set)
qed

lemma count_code_lines_parsed:
  "ast_parse content = Inr tree \<Longrightarrow>
   count_code_lines ast_parse (Readable content) =
     Inr (int (card {l. \<exists>n \<in> set (walk tree). lineno n = Some l}))"
  by (simp add: count_code_lines_def count_code_lines_try_def code_lines_of_card)

text \<open>
  A file that \<^verbatim>\<open>open\<close> cannot read makes \<^verbatim>\<open>count_code_lines\<close> raise: the
  handler does not catch \<^verbatim>\<open>OSError\<close>, so the fallback counter is not reached.
\<close>

lemma count_code_lines_unreadable:
  "count_code_lines ast_parse (Unreadable OSError) = Inl OSError"
  by (simp add: count_code_lines_def count_code_lines_try_def)

text \<open>
  C7. The counter is documented to exclude docstrings, and the claim says that a line
  wholly occupied by a standalone documentation string is not counted. The code adds the
  line of every node that has one, and a docstring is an expression statement with a
  line number: on the two-line file of a docstring and one assignment the counter
  returns 2, not 1.
\<close>

theorem count_code_lines_counts_docstring:
  "count_code_lines (\<lambda>content. Inr docstring_module) (Readable docstring_source) = Inr 2
   \<and> 1 \<in> set (code_lines_of docstring_module)"
  by (simp add: count_code_lines_def count_code_lines_try_def code_lines_of_def walk_def
      docstring_module_def)

text \<open>
  C9. On a file that cannot be read the fallback counter \<^verbatim>\<open>_count_lines_simple\<close>
  returns 0, whatever the exception, which is also what it returns on an empty file.
\<close>

theorem count_lines_simple_unreadable:
  "count_lines_simple (Unreadable e) = 0 \<and>
   count_lines_simple (Unreadable e) = count_lines_simple (Readable [])"
  by (simp add: count_lines_simple_def)

subsection \<open>Aggregator\<close>

lemma analyze_loop_invariant:
  "analyze_loop ast_parse files (t, w, v) = Inr (t', w', v') \<Longrightarrow>
   0 \<le> w \<Longrightarrow> w \<le> t \<Longrightarrow> 0 \<le> v \<Longrightarrow> 0 \<le> w' \<and> w' \<le> t' \<and> 0 \<le> v'"
proof (induction files arbitrary: t w v)
  case Nil
  then show ?case by simp
next
  case (Cons f files)
  from Cons.prems(1) obtain n where n: "count_code_lines ast_parse f = Inr n"
    by (auto split: sum.splits)
  then have "0 \<le> n" by (rule code_lines_count_nonneg)
  with Cons n show ?case
    by (auto split: if_splits)
qed

lemma analyze_loop_fold:
  "map (count_code_lines ast_parse) files = map Inr counts \<Longrightarrow>
   analyze_loop ast_parse files (t, w, v) =
     Inr (t + sum_list counts, w + sum_list (filter (\<lambda>c. c \<le> 150) counts),
          v + int (length (filter (\<lambda>c. \<not> c \<le> 150) counts)))"
proof (induction files arbitrary: counts t w v)
  case Nil
  then show ?case by simp
next
  case (Cons f files)
  then obtain c cs where "counts = c # cs" by (cases counts) auto
  with Cons show ?case by (auto simp: algebra_simps)
qed

lemma analyze_loop_returns:
  "(\<exists>r. analyze_loop ast_parse files acc = Inr r) \<longleftrightarrow>
   (\<forall>f \<in> set files. \<exists>n. count_code_lines ast_parse f = Inr n)"
proof (induction files arbitrary: acc)
  case Nil
  show ?case by (cases acc rule: prod_cases3) simp
next
  case (Cons f files)
  obtain t w v where acc: "acc = (t, w, v)" using prod_cases3 by blast
  show ?case
  proof (cases "count_code_lines ast_parse f")
    case (Inl e)
    then show ?thesis by (simp add: acc)
  next
    case (Inr n)
    then show ?thesis using Cons.IH by (simp add: acc)
  qed
qed

lemma analyze_repository_returns:
  "(\<exists>m. analyze_repository ast_parse (Inr files) = Inr m) \<longleftrightarrow>
   (\<forall>f \<in> set files. \<exists>n. count_code_lines ast_parse f = Inr n)"
  using analyze_loop_returns [of ast_parse files "(0, 0, 0)"]
  by (auto simp: analyze_repository_def find_python_files_def split: sum.splits)

lemma file_lines_pass_source:
  "file_lines (pass_source k) = replicate k [112, 97, 115, 115, 10]"
  by (induction k) (simp_all add: pass_source_def)

lemma pass_parse_source: "pass_parse (pass_source k) = Inr (pass_module k)"
  by (simp add: pass_parse_def file_lines_pass_source)

text \<open>
  C5. Whenever the aggregator returns metrics, the lines within the limit are at most
  the total lines and the four fields are non-negative.
\<close>

theorem analyze_repository_metrics_invariant:
  assumes "analyze_repository ast_parse repo = Inr m"
  shows "lines_within_limit m \<le> total_lines m \<and> 0 \<le> total_lines m \<and>
         0 \<le> lines_within_limit m \<and> 0 \<le> files_over_limit m \<and> 0 \<le> total_files m"
proof -
  from assms obtain files t w v where
    loop: "analyze_loop ast_parse files (0, 0, 0) = Inr (t, w, v)" and
    m: "m = \<lparr>total_lines = t, lines_within_limit = w, files_over_limit = v,
              total_files = int (length files)\<rparr>"
    by (auto simp: analyze_repository_def find_python_files_def split: sum.splits)
  from analyze_loop_invariant [OF loop] have "0 \<le> w \<and> w \<le> t \<and> 0 \<le> v" by simp
  with m show ?thesis by simp
qed

theorem analyze_repository_metrics_invariant_witness:
  "analyze_repository (\<lambda>c. Inl SyntaxError)
       (Inr [Readable [120, 10, 10, 121], Readable []]) =
     Inr \<lparr>total_lines = 2, lines_within_limit = 2, files_over_limit = 0, total_files = 2\<rparr>
   \<and> (2::int) \<le> 2 \<and> (0::int) \<le> 2 \<and> (0::int) \<le> 0"
proof -
  have h: "analyze_repository (\<lambda>c. Inl SyntaxError)
       (Inr [Readable [120, 10, 10, 121], Readable []]) =
     Inr \<lparr>total_lines = 2, lines_within_limit = 2, files_over_limit = 0, total_files = 2\<rparr>"
    by (simp add: analyze_repository_def find_python_files_def count_code_lines_def
        count_code_lines_try_def count_lines_simple_def strip_def is_space_def)
  from analyze_repository_metrics_invariant [OF h] h show ?thesis by simp
qed

text \<open>
  C6. When the files have the code-line counts \<open>counts\<close>, the aggregator returns their
  sum as \<open>total_lines\<close>, the sum of the counts of at most 150 as
  \<open>lines_within_limit\<close>, the number of counts above 150 as \<open>files_over_limit\<close> and
  the number of files as \<open>total_files\<close>. The witness takes a file of exactly 150 code
  lines, which is within the limit, and one of 151, which is over it.
\<close>

theorem analyze_repository_fold:
  assumes "map (count_code_lines ast_parse) files = map Inr counts"
  shows "analyze_repository ast_parse (Inr files) =
     Inr \<lparr>total_lines = sum_list counts,
          lines_within_limit = sum_list (filter (\<lambda>c. c \<le> 150) counts),
          files_over_limit = int (length (filter (\<lambda>c. \<not> c \<le> 150) counts)),
          total_files = int (length files)\<rparr>"
  using analyze_loop_fold [OF assms, of 0 0 0]
  by (simp add: analyze_repository_def find_python_files_def)

theorem analyze_repository_fold_witness:
  "map (count_code_lines pass_parse) [Readable (pass_source 150), Readable (pass_source 151)] =
     map Inr [150, 151]
   \<and> analyze_repository pass_parse (Inr [Readable (pass_source 150), Readable (pass_source 151)]) =
     Inr \<lparr>total_lines = 301, lines_within_limit = 150, files_over_limit = 1, total_files = 2\<rparr>"
proof -
  have "length (code_lines_of (pass_module 150)) = 150"
    by code_simp
  then have a: "count_code_lines pass_parse (Readable (pass_source 150)) = Inr 150"
    by (simp add: count_code_lines_def count_code_lines_try_def pass_parse_source)
  have "length (code_lines_of (pass_module 151)) = 151"
    by code_simp
  then have b: "count_code_lines pass_parse (Readable (pass_source 151)) = Inr 151"
    by (simp add: count_code_lines_def count_code_lines_try_def pass_parse_source)
  have h: "map (count_code_lines pass_parse) [Readable (pass_source 150), Readable (pass_source 151)] =
     map Inr [150, 151]"
    by (simp add: a b)
  from analyze_repository_fold [OF h] h show ?thesis by simp
qed

text \<open>
  An exception of the parser of any other class is not caught by the handler.
\<close>

lemma count_code_lines_other_exception:
  "ast_parse content = Inl e \<Longrightarrow> e \<noteq> SyntaxError \<Longrightarrow> e \<noteq> UnicodeDecodeError \<Longrightarrow>
   count_code_lines ast_parse (Readable content) = Inl e"
  by (simp add: count_code_lines_def count_code_lines_try_def)

text \<open>
  The two classes the handler names. When parsing the text of a readable file raises
  \<^verbatim>\<open>SyntaxError\<close> or \<^verbatim>\<open>UnicodeDecodeError\<close>, the counter does not raise: it
  returns the number of lines whose stripped text is not empty, which is not negative,
  and the analysis of a repository that contains the file returns metrics exactly when
  the analysis of the other files does. (The file is read with
  \<^verbatim>\<open>errors="ignore"\<close>, so undecodable bytes are dropped and raise nothing.)
\<close>

theorem count_code_lines_fallback:
  assumes "ast_parse content = Inl e" and "e = SyntaxError \<or> e = UnicodeDecodeError"
  shows "count_code_lines ast_parse (Readable content) =
           Inr (int (length (filter (\<lambda>line. strip line \<noteq> []) (file_lines content))))
         \<and> ((\<exists>m. analyze_repository ast_parse (Inr (before @ Readable content # after)) = Inr m)
              \<longleftrightarrow> (\<exists>m. analyze_repository ast_parse (Inr (before @ after)) = Inr m))"
proof -
  have c: "count_code_lines ast_parse (Readable content) =
           Inr (int (length (filter (\<lambda>line. strip line \<noteq> []) (file_lines content))))"
    using assms
    by (auto simp: count_code_lines_def count_code_lines_try_def count_lines_simple_def)
  show ?thesis using c by (auto simp: analyze_repository_returns)
qed

theorem count_code_lines_fallback_witness:
  "(\<lambda>c. Inl SyntaxError) [120, 32, 61, 10, 10, 32, 10, 40] = (Inl SyntaxError :: pyexc + ast)
   \<and> count_code_lines (\<lambda>c. Inl SyntaxError) (Readable [120, 32, 61, 10, 10, 32, 10, 40]) = Inr 2
   \<and> (\<exists>m. analyze_repository (\<lambda>c. Inl SyntaxError)
            (Inr [Readable [120, 32, 61, 10, 10, 32, 10, 40]]) = Inr m)"
proof -
  have h: "(\<lambda>c. Inl SyntaxError) [120, 32, 61, 10, 10, 32, 10, 40] = (Inl SyntaxError :: pyexc + ast)"
    by simp
  have n: "length (filter (\<lambda>line. strip line \<noteq> []) (file_lines [120, 32, 61, 10, 10, 32, 10, 40])) = 2"
    by (simp add: strip_def is_space_def)
  have e: "\<exists>m. analyze_repository (\<lambda>c. Inl SyntaxError) (Inr ([] @ [])) = Inr m"
    by (simp add: analyze_repository_def find_python_files_def)
  have "count_code_lines (\<lambda>c. Inl SyntaxError) (Readable [120, 32, 61, 10, 10, 32, 10, 40]) =
           Inr (int (length (filter (\<lambda>line. strip line \<noteq> [])
             (file_lines [120, 32, 61, 10, 10, 32, 10, 40]))))
         \<and> ((\<exists>m. analyze_repository (\<lambda>c. Inl SyntaxError)
                 (Inr ([] @ Readable [120, 32, 61, 10, 10, 32, 10, 40] # [])) = Inr m)
              \<longleftrightarrow> (\<exists>m. analyze_repository (\<lambda>c. Inl SyntaxError) (Inr ([] @ [])) = Inr m))"
    by (rule count_code_lines_fallback [where e = SyntaxError]) simp_all
  with n e h show ?thesis
    by simp
qed



subsection \<open>Grade\<close>

lemma round_half_even_nonneg: "0 \<le> x \<Longrightarrow> 0 \<le> round_half_even x"
  by (auto simp: round_half_even_def Let_def)

lemma round_half_even_le:
  assumes "x \<le> of_int n"
  shows "round_half_even x \<le> n"
proof -
  have f: "\<lfloor>x\<rfloor> \<le> n" using assms by (simp add: floor_le_iff)
  show ?thesis
  proof (cases "\<lfloor>x\<rfloor> = n")
    case True
    then have "x = of_int \<lfloor>x\<rfloor>" using assms of_int_floor_le [of x] by simp
    then have "x - of_int \<lfloor>x\<rfloor> = 0" by simp
    then show ?thesis using True by (simp add: round_half_even_def Let_def)
  next
    case False
    with f have "\<lfloor>x\<rfloor> + 1 \<le> n" by simp
    then show ?thesis using f by (auto simp: round_half_even_def Let_def)
  qed
qed

lemma flog2_power: "0 < n \<Longrightarrow> 2 ^ flog2 n \<le> n"
proof (induction n rule: flog2.induct)
  case (1 n)
  show ?case
  proof (cases "n < 2")
    case True
    with 1 show ?thesis by simp
  next
    case False
    then have "0 < n div 2" by simp
    with 1 False have "2 ^ flog2 (n div 2) \<le> n div 2" by simp
    then have "2 * 2 ^ flog2 (n div 2) \<le> 2 * (n div 2)" by simp
    also have "\<dots> \<le> n" by simp
    finally show ?thesis using False by (subst flog2.simps) simp
  qed
qed

lemma flog2_le_6: "n \<le> 100 \<Longrightarrow> flog2 n \<le> 6"
proof (cases "0 < n")
  case True
  assume "n \<le> 100"
  with flog2_power [OF True] have "(2::nat) ^ flog2 n < 2 ^ 7" by simp
  then have "flog2 n < 7" by (rule power_less_imp_less_exp [rotated]) simp
  then show ?thesis by simp
next
  case False
  then show ?thesis by simp
qed

lemma float_exponent_le_6: "q \<le> 100 \<Longrightarrow> float_exponent q \<le> 6"
proof -
  assume q: "q \<le> 100"
  show ?thesis
  proof (cases "1 \<le> q")
    case True
    define k where "k = nat \<lfloor>q\<rfloor>"
    have "\<lfloor>q\<rfloor> \<le> 100" using q by (simp add: floor_le_iff)
    then have "k \<le> 100" unfolding k_def by linarith
    then have "flog2 k \<le> 6" by (rule flog2_le_6)
    then show ?thesis using True by (simp add: float_exponent_def k_def)
  next
    case False
    then show ?thesis by (simp add: float_exponent_def)
  qed
qed

lemma binary64_nonneg: "0 \<le> q \<Longrightarrow> 0 \<le> binary64 q"
proof (cases "q = 0")
  case True
  then show ?thesis by (simp add: binary64_def)
next
  case False
  assume "0 \<le> q"
  with False have q: "0 < q" by simp
  define u :: rat where "u = 2 powi (max (float_exponent q) (- 1022) - 52)"
  have u: "0 < u" by (simp add: u_def)
  with q have "0 \<le> q / u" by simp
  then have "0 \<le> round_half_even (q / u)" by (rule round_half_even_nonneg)
  with u q show ?thesis by (simp add: binary64_def Let_def u_def)
qed

lemma binary64_le_int:
  assumes "0 \<le> q" and "q \<le> of_int c" and "float_exponent q \<le> 52"
  shows "binary64 q \<le> of_int c"
proof (cases "q = 0")
  case True
  then show ?thesis using assms(2) by (simp add: binary64_def)
next
  case nz: False
  with assms(1) have False: "0 < q" by simp
  define e where "e = max (float_exponent q) (- 1022)"
  define u :: rat where "u = 2 powi (e - 52)"
  have e: "e \<le> 52" using assms(3) by (simp add: e_def)
  have u: "0 < u" by (simp add: u_def)
  have inv: "1 / u = of_int (2 ^ nat (52 - e))"
    using e by (simp add: u_def power_int_def field_simps)
  have "q / u \<le> of_int c / u" using assms(2) u by (simp add: divide_right_mono)
  also have "\<dots> = of_int c * (1 / u)" by simp
  also have "\<dots> = of_int (c * 2 ^ nat (52 - e))"
    by (simp only: inv of_int_mult)
  finally have "round_half_even (q / u) \<le> c * 2 ^ nat (52 - e)"
    by (rule round_half_even_le)
  then have "(of_int (round_half_even (q / u)) :: rat) \<le> of_int (c * 2 ^ nat (52 - e))"
    by (simp only: of_int_le_iff)
  also have "\<dots> = of_int c * (1 / u)"
    by (simp only: inv of_int_mult)
  also have "\<dots> = of_int c / u" by simp
  finally have "of_int (round_half_even (q / u)) * u \<le> of_int c"
    using u by (simp add: pos_le_divide_eq)
  then show ?thesis using False by (simp add: binary64_def Let_def e_def u_def)
qed


lemma binary64_le_100: "0 \<le> q \<Longrightarrow> q \<le> 100 \<Longrightarrow> binary64 q \<le> 100"
  using binary64_le_int [of q 100] float_exponent_le_6 [of q] by simp

lemma binary64_le_1: "0 \<le> q \<Longrightarrow> q \<le> 1 \<Longrightarrow> binary64 q \<le> 1"
  using binary64_le_int [of q 1] float_exponent_le_6 [of q] by simp

lemma py_round2_hundredths:
  assumes "0 \<le> x" and "x \<le> 100"
  shows "\<exists>k. 0 \<le> k \<and> k \<le> 10000 \<and> py_round x 2 = binary64 (of_int k / 100)"
proof -
  define k where "k = round_half_even (x * 100)"
  have "0 \<le> x * 100" using assms(1) by simp
  then have k0: "0 \<le> k" unfolding k_def by (rule round_half_even_nonneg)
  have "x * 100 \<le> of_int 10000" using assms(2) by simp
  then have k1: "k \<le> 10000" unfolding k_def by (rule round_half_even_le)
  have "py_round x 2 = binary64 (of_int k / 100)" by (simp add: py_round_def k_def)
  with k0 k1 show ?thesis by blast
qed

text \<open>
  C4 as the code has it. For metrics with \<open>0 \<le> lines_within_limit \<le> total_lines\<close> the
  grade is 0.0 when \<open>total_lines\<close> is 0; otherwise the quotient
  \<open>lines_within_limit / total_lines\<close> is rounded to a double first, its product with
  100 is rounded to a double again, and that double is rounded to two decimals. The
  grade lies between 0 and 100 and is the double nearest to a multiple of one hundredth.
\<close>

theorem calculate_grade_range:
  assumes "0 \<le> lines_within_limit a" and "lines_within_limit a \<le> total_lines a"
  shows "calculate_grade a =
           (if total_lines a = 0 then 0
            else py_round (py_fmul (py_truediv (lines_within_limit a) (total_lines a)) 100) 2)
         \<and> 0 \<le> calculate_grade a \<and> calculate_grade a \<le> 100
         \<and> (\<exists>k. 0 \<le> k \<and> k \<le> 10000 \<and> calculate_grade a = binary64 (of_int k / 100))"
proof (cases "total_lines a = 0")
  case True
  have "calculate_grade a = binary64 (of_int 0 / 100)"
    using True by (simp add: calculate_grade_def binary64_def)
  then have "\<exists>k. 0 \<le> k \<and> k \<le> 10000 \<and> calculate_grade a = binary64 (of_int k / 100)"
    by (intro exI [of _ 0]) simp
  then show ?thesis using True by (simp add: calculate_grade_def)
next
  case False
  define ratio where "ratio = py_truediv (lines_within_limit a) (total_lines a)"
  define x where "x = py_fmul ratio 100"
  have g: "calculate_grade a = py_round x 2"
    using False by (simp add: calculate_grade_def ratio_def x_def)
  have pos: "0 < total_lines a" using assms False by simp
  have q0: "0 \<le> (of_int (lines_within_limit a) :: rat) / of_int (total_lines a)"
    using assms(1) pos by simp
  have q1: "(of_int (lines_within_limit a) :: rat) / of_int (total_lines a) \<le> 1"
    using assms(2) pos by simp
  have r1: "ratio \<le> 1" unfolding ratio_def py_truediv_def using q0 q1 by (rule binary64_le_1)
  have r0: "0 \<le> ratio" unfolding ratio_def py_truediv_def using q0 by (rule binary64_nonneg)
  have p0: "0 \<le> ratio * 100" using r0 by simp
  have p1: "ratio * 100 \<le> 100" using r1 by simp
  have x1: "x \<le> 100" unfolding x_def py_fmul_def using p0 p1 by (rule binary64_le_100)
  have x0: "0 \<le> x" unfolding x_def py_fmul_def using p0 by (rule binary64_nonneg)
  from py_round2_hundredths [OF x0 x1] obtain k where
    k: "0 \<le> k" "k \<le> 10000" "py_round x 2 = binary64 (of_int k / 100)" by blast
  have h0: "0 \<le> (of_int k :: rat) / 100" using k(1) by simp
  have h1: "(of_int k :: rat) / 100 \<le> 100" using k(2) by simp
  have "binary64 (of_int k / 100) \<le> 100" using h0 h1 by (rule binary64_le_100)
  then have le: "calculate_grade a \<le> 100" using g k(3) by simp
  have "0 \<le> binary64 (of_int k / 100)" using h0 by (rule binary64_nonneg)
  then have ge: "0 \<le> calculate_grade a" using g k(3) by simp
  have ex: "\<exists>k. 0 \<le> k \<and> k \<le> 10000 \<and> calculate_grade a = binary64 (of_int k / 100)"
    using g k by auto
  have eq: "calculate_grade a =
           (if total_lines a = 0 then 0
            else py_round (py_fmul (py_truediv (lines_within_limit a) (total_lines a)) 100) 2)"
    using False g by (simp add: ratio_def x_def)
  from eq ge le ex show ?thesis by blast
qed

theorem calculate_grade_range_witness:
  "(0::int) \<le> 100 \<and> (100::int) \<le> 300
   \<and> calculate_grade \<lparr>total_lines = 300, lines_within_limit = 100, files_over_limit = 1,
        total_files = 2\<rparr> = binary64 (3333 / 100)
   \<and> 0 \<le> binary64 (3333 / 100) \<and> binary64 (3333 / 100) \<le> 100"
proof -
  define a where "a = \<lparr>total_lines = 300, lines_within_limit = 100, files_over_limit = 1,
        total_files = 2\<rparr>"
  have v: "calculate_grade \<lparr>total_lines = 300, lines_within_limit = 100, files_over_limit = 1,
        total_files = 2\<rparr> = binary64 (3333 / 100)"
    by code_simp
  have h0: "0 \<le> lines_within_limit a" by (simp add: a_def)
  have h1: "lines_within_limit a \<le> total_lines a" by (simp add: a_def)
  from calculate_grade_range [OF h0 h1] v show ?thesis by (simp add: a_def)
qed

text \<open>
  C4 as stated fails: the grade is not always \<^verbatim>\<open>round(100 * lines_within_limit /
  total_lines, 2)\<close>. For 23 lines within the limit out of 160 the exact percentage is
  14.375, which rounds to 14.38 (as an exact number, and as the Python expression),
  while the code multiplies the rounded quotient \<^verbatim>\<open>23 / 160\<close> by 100, obtains a
  double just below 14.375 and returns 14.37.
\<close>

theorem calculate_grade_not_as_specified:
  "lines_within_limit \<lparr>total_lines = 160, lines_within_limit = 23, files_over_limit = 0,
        total_files = 1\<rparr> \<le> total_lines \<lparr>total_lines = 160, lines_within_limit = 23,
        files_over_limit = 0, total_files = 1\<rparr>
   \<and> calculate_grade \<lparr>total_lines = 160, lines_within_limit = 23, files_over_limit = 0,
        total_files = 1\<rparr> = binary64 (1437 / 100)
   \<and> grade_as_specified \<lparr>total_lines = 160, lines_within_limit = 23, files_over_limit = 0,
        total_files = 1\<rparr> = binary64 (1438 / 100)
   \<and> calculate_grade \<lparr>total_lines = 160, lines_within_limit = 23, files_over_limit = 0,
        total_files = 1\<rparr> \<noteq> grade_as_specified \<lparr>total_lines = 160, lines_within_limit = 23,
        files_over_limit = 0, total_files = 1\<rparr>
   \<and> round_half_even (100 * 23 / 160 * 100) = 1438"
proof -
  have e: "round_half_even (100 * 23 / 160 * 100) = 1438"
    by code_simp
  have c: "calculate_grade \<lparr>total_lines = 160, lines_within_limit = 23, files_over_limit = 0,
        total_files = 1\<rparr> = 8089590830664253 / 562949953421312"
    by code_simp
  have s: "grade_as_specified \<lparr>total_lines = 160, lines_within_limit = 23, files_over_limit = 0,
        total_files = 1\<rparr> = 8095220330198467 / 562949953421312"
    by code_simp
  have l: "binary64 (1437 / 100) = 8089590830664253 / 562949953421312"
    by code_simp
  have r: "binary64 (1438 / 100) = 8095220330198467 / 562949953421312"
    by code_simp
  show ?thesis unfolding c s l r e by simp
qed

subsection \<open>Worker\<close>

lemma clone_repo_outcome: "fst (clone_repo w fs url) = fst (clone_repo w fs' url)"
  by (simp add: clone_repo_def split: sum.splits option.splits)

lemma process_try_outcome:
  "fst (process_try ast_parse w fs url) = fst (process_try ast_parse w fs' url)"
  using clone_repo_outcome [of w fs url fs']
  by (cases "clone_repo w fs url"; cases "clone_repo w fs' url")
     (auto simp: process_try_def split: sum.splits)

text \<open>
  The exceptions of the body: a failed or timed-out clone, and an exception of the
  analysis after a successful clone.
\<close>

lemma process_try_clone_raises:
  "mkdtemp_result w = Inr d \<Longrightarrow> git_clone_raises w = Some e \<Longrightarrow>
   fst (process_try ast_parse w fs url) = Inl e"
  by (simp add: process_try_def clone_repo_def)

lemma process_try_analysis_raises:
  "mkdtemp_result w = Inr d \<Longrightarrow> git_clone_raises w = None \<Longrightarrow>
   analyze_repository ast_parse (checkout w) = Inl e \<Longrightarrow>
   fst (process_try ast_parse w fs url) = Inl e"
  by (simp add: process_try_def clone_repo_def)

lemma process_returns:
  assumes "map_of job_record ''ID'' = Some repo_id" and "map_of job_record ''Repo'' = Some repo_url"
  shows "fst (process ast_parse w fs job_record) =
           Inr (case fst (process_try ast_parse w fs repo_url) of
                  Inl e \<Rightarrow> error_result repo_id
                | Inr grade \<Rightarrow> ready_result repo_id grade)"
  using assms by (simp add: process_def split: prod.splits sum.splits)

lemma process_no_repo:
  assumes "map_of job_record ''ID'' = Some repo_id" and "map_of job_record ''Repo'' = None"
  shows "fst (process ast_parse w fs job_record) = Inl KeyError"
  using assms by (simp add: process_def)

lemma process_outcome:
  "fst (process ast_parse w fs job_record) = fst (process ast_parse w fs' job_record)"
proof (cases "map_of job_record ''ID''")
  case None
  then show ?thesis by (simp add: process_def)
next
  case (Some repo_id)
  show ?thesis
  proof (cases "map_of job_record ''Repo''")
    case None
    then show ?thesis by (simp add: process_no_repo [OF Some])
  next
    case (Some repo_url)
    then show ?thesis
      using process_try_outcome [of ast_parse w fs repo_url fs']
      by (simp add: process_returns [OF \<open>map_of job_record ''ID'' = Some repo_id\<close>])
  qed
qed



text \<open>
  After a successful clone the \<^verbatim>\<open>finally\<close> clause removes the scratch directory,
  also when the analysis raised. After a failed clone \<^verbatim>\<open>repo_dir\<close> is still
  \<^verbatim>\<open>None\<close>, the clause does nothing, and the directory that
  \<^verbatim>\<open>mkdtemp\<close> created stays.
\<close>

lemma process_removes_scratch_dir:
  assumes "map_of job_record ''ID'' = Some repo_id" and "map_of job_record ''Repo'' = Some repo_url"
      and "mkdtemp_result w = Inr d" and "git_clone_raises w = None" and "rmtree_removes w"
  shows "d \<notin> snd (process ast_parse w fs job_record)"
  using assms
  by (simp add: process_def process_try_def clone_repo_def cleanup_repo_def split: sum.splits)

lemma process_keeps_scratch_dir:
  assumes "map_of job_record ''ID'' = Some repo_id" and "map_of job_record ''Repo'' = Some repo_url"
      and "mkdtemp_result w = Inr d" and "git_clone_raises w = Some e"
  shows "d \<in> snd (process ast_parse w fs job_record)"
  using assms
  by (simp add: process_def process_try_def clone_repo_def)

text \<open>
  C3. The claim asks that the scratch directory is gone on every exit path, the fetch
  failure and the fetch timeout included. On a clone that times out the worker returns
  the error dictionary and the directory created for the job still exists.
\<close>

theorem process_leaves_scratch_dir_after_timeout:
  "process pass_parse (timeout_world ''/tmp/repo_b'') {}
     [(''ID'', PInt 2), (''Repo'', PStr ''https://github.com/user/repo2'')] =
   (Inr (error_result (PInt 2)), {''/tmp/repo_b''})"
  by (simp add: process_def process_try_def clone_repo_def timeout_world_def)

subsection \<open>Pool\<close>

lemma future_entry_id:
  assumes "map_of repo ''ID'' = Some repo_id"
  shows "map_of (future_entry (job_future ast_parse w repo)) ''ID'' = Some repo_id
         \<and> future_entry (job_future ast_parse w repo) \<noteq> []"
proof (cases "map_of repo ''Repo''")
  case None
  from process_no_repo [OF assms None] show ?thesis
    using assms by (simp add: future_entry_def job_future_def error_result_def)
next
  case (Some url)
  from process_returns [OF assms Some] show ?thesis
    using assms
    by (cases "fst (process_try ast_parse w {} url)")
       (simp_all add: future_entry_def job_future_def error_result_def ready_result_def)
qed

lemma job_future_truthy:
  "map_of repo ''ID'' = Some repo_id \<Longrightarrow> fst (job_future ast_parse w repo) \<noteq> Inr []"
  using future_entry_id [of repo repo_id ast_parse w]
  by (cases "fst (process ast_parse w {} repo)") (auto simp: future_entry_def job_future_def)

lemma submit_all_futures:
  assumes "\<forall>r \<in> set repos. map_of r ''ID'' \<noteq> None"
  shows "fst (submit_all ast_parse world fs i repos) =
           Inr (map (\<lambda>(j, r). job_future ast_parse (world j) r) (zip [i..<i + length repos] repos))"
  using assms
proof (induction repos arbitrary: fs i)
  case Nil
  then show ?case by simp
next
  case (Cons repo repos)
  obtain outcome fs1 where p: "process ast_parse (world i) fs repo = (outcome, fs1)"
    by (cases "process ast_parse (world i) fs repo")
  from Cons.prems obtain repo_id where rid: "map_of repo ''ID'' = Some repo_id" by auto
  have o: "outcome = fst (process ast_parse (world i) {} repo)"
    using p process_outcome [of ast_parse "world i" fs repo "{}"] by simp
  have ih: "fst (submit_all ast_parse world fs1 (Suc i) repos) =
           Inr (map (\<lambda>(j, r). job_future ast_parse (world j) r) (zip [Suc i..<Suc i + length repos] repos))"
    using Cons.IH [of fs1 "Suc i"] Cons.prems by simp
  have z: "zip [i..<i + length (repo # repos)] (repo # repos) =
           (i, repo) # zip [Suc i..<Suc i + length repos] repos"
  proof -
    have "[i..<i + length (repo # repos)] = i # [Suc i..<Suc i + length repos]"
      by (subst upt_conv_Cons) simp_all
    then show ?thesis by simp
  qed
  show ?case
    unfolding z using p rid ih o
    by (cases "submit_all ast_parse world fs1 (Suc i) repos")
       (auto simp: job_future_def split: sum.splits)
qed

lemma collect_results_entries:
  "\<forall>f \<in> set futures. fst f \<noteq> Inr [] \<Longrightarrow>
   collect_results futures results = results @ map future_entry futures"
proof (induction futures arbitrary: results)
  case Nil
  then show ?case by simp
next
  case (Cons f futures)
  obtain outcome repo_id where f: "f = (outcome, repo_id)" by (cases f)
  show ?case
  proof (cases outcome)
    case (Inl e)
    with Cons f show ?thesis by (simp add: future_entry_def)
  next
    case (Inr result)
    with Cons.prems f have "result \<noteq> []" by auto
    with Cons f Inr show ?thesis by (simp add: future_entry_def)
  qed
qed

lemma process_parallel_results:
  assumes ids: "\<forall>r \<in> set repos. map_of r ''ID'' \<noteq> None"
      and perm: "mset order = mset [0..<length repos]"
  shows "fst (process_parallel ast_parse world fs repos order) =
           Inr (map (\<lambda>i. future_entry (job_future ast_parse (world i) (repos ! i))) order)"
proof -
  define futures where
    "futures = map (\<lambda>(j, r). job_future ast_parse (world j) r) (zip [0..<0 + length repos] repos)"
  have s: "fst (submit_all ast_parse world fs 0 repos) = Inr futures"
    unfolding futures_def by (rule submit_all_futures [OF ids])
  have "set order = set [0..<length repos]" using perm by (rule mset_eq_setD)
  then have bound: "\<forall>i \<in> set order. i < length repos" by simp
  have nth: "futures ! i = job_future ast_parse (world i) (repos ! i)" if "i < length repos" for i
    using that by (simp add: futures_def)
  have ac: "as_completed futures order =
              map (\<lambda>i. job_future ast_parse (world i) (repos ! i)) order"
    unfolding as_completed_def using bound nth by simp
  have truthy: "\<forall>f \<in> set (as_completed futures order). fst f \<noteq> Inr []"
  proof
    fix f assume "f \<in> set (as_completed futures order)"
    then obtain i where i: "i \<in> set order" and f: "f = job_future ast_parse (world i) (repos ! i)"
      unfolding ac by auto
    from i bound have "repos ! i \<in> set repos" by simp
    with ids obtain repo_id where "map_of (repos ! i) ''ID'' = Some repo_id" by auto
    then show "fst f \<noteq> Inr []" unfolding f by (rule job_future_truthy)
  qed
  have "collect_results (as_completed futures order) [] =
          map future_entry (as_completed futures order)"
    using collect_results_entries [OF truthy, of "[]"] by simp
  then have c: "collect_results (as_completed futures order) [] =
          map (\<lambda>i. future_entry (job_future ast_parse (world i) (repos ! i))) order"
    by (simp add: ac comp_def)
  show ?thesis
    using s c
    by (cases "submit_all ast_parse world fs 0 repos") (simp add: process_parallel_def)
qed

lemma example_ids: "\<forall>r \<in> set example_repos. map_of r ''ID'' \<noteq> None"
  by (simp add: example_repos_def)

lemma example_id_list:
  "map (\<lambda>r. map_of r ''ID'') example_repos = [Some (PInt 1), Some (PInt 2), Some (PInt 3)]"
  by (simp add: example_repos_def)

lemma example_order: "mset [2, 0, 1] = mset [0..<length example_repos]"
  by (simp add: example_repos_def upt_rec_numeral)

text \<open>
  C1. When every record has an \<^verbatim>\<open>ID\<close> and the futures complete in any order,
  the pool returns one result per job, and the IDs of the results are the IDs of the
  jobs, as multisets.
\<close>

theorem process_parallel_complete:
  assumes ids: "\<forall>r \<in> set repos. map_of r ''ID'' \<noteq> None"
      and perm: "mset order = mset [0..<length repos]"
  shows "\<exists>results. fst (process_parallel ast_parse world fs repos order) = Inr results
           \<and> length results = length repos
           \<and> mset (map (\<lambda>d. map_of d ''ID'') results) = mset (map (\<lambda>r. map_of r ''ID'') repos)"
proof -
  define results where
    "results = map (\<lambda>i. future_entry (job_future ast_parse (world i) (repos ! i))) order"
  have r: "fst (process_parallel ast_parse world fs repos order) = Inr results"
    unfolding results_def by (rule process_parallel_results [OF ids perm])
  have "length order = length [0..<length repos]" using perm by (rule mset_eq_length)
  then have len: "length results = length repos" by (simp add: results_def)
  have "set order = set [0..<length repos]" using perm by (rule mset_eq_setD)
  then have bound: "\<forall>i \<in> set order. i < length repos" by simp
  have id: "map_of (future_entry (job_future ast_parse (world i) (repos ! i))) ''ID'' =
            map_of (repos ! i) ''ID''" if "i \<in> set order" for i
  proof -
    from that bound have "repos ! i \<in> set repos" by simp
    with ids obtain repo_id where "map_of (repos ! i) ''ID'' = Some repo_id" by auto
    then show ?thesis using future_entry_id [of "repos ! i" repo_id ast_parse "world i"] by simp
  qed
  have "map (\<lambda>d. map_of d ''ID'') results = map (\<lambda>i. map_of (repos ! i) ''ID'') order"
    using id by (simp add: results_def)
  then have "mset (map (\<lambda>d. map_of d ''ID'') results) =
             image_mset (\<lambda>i. map_of (repos ! i) ''ID'') (mset order)"
    by simp
  also have "\<dots> = mset (map (\<lambda>i. map_of (repos ! i) ''ID'') [0..<length repos])"
    by (simp add: perm)
  also have "map (\<lambda>i. map_of (repos ! i) ''ID'') [0..<length repos] =
             map (\<lambda>r. map_of r ''ID'') repos"
    by (rule nth_equalityI) simp_all
  finally show ?thesis using r len by blast
qed


theorem process_parallel_complete_witness:
  "map (\<lambda>r. map_of r ''ID'') example_repos = [Some (PInt 1), Some (PInt 2), Some (PInt 3)]
   \<and> mset [2, 0, 1] = mset [0..<length example_repos]
   \<and> fst (process_parallel pass_parse example_world {} example_repos [2, 0, 1]) =
        Inr [ready_result (PInt 3) 100, ready_result (PInt 1) 100, error_result (PInt 2)]
   \<and> mset (map (\<lambda>d. map_of d ''ID'')
        [ready_result (PInt 3) 100, ready_result (PInt 1) 100, error_result (PInt 2)]) =
      mset (map (\<lambda>r. map_of r ''ID'') example_repos)"
proof -
  have v: "fst (process_parallel pass_parse example_world {} example_repos [2, 0, 1]) =
        Inr [ready_result (PInt 3) 100, ready_result (PInt 1) 100, error_result (PInt 2)]"
    by code_simp
  have m: "mset (map (\<lambda>d. map_of d ''ID'')
        [ready_result (PInt 3) 100, ready_result (PInt 1) 100, error_result (PInt 2)]) =
      mset (map (\<lambda>r. map_of r ''ID'') example_repos)"
    using process_parallel_complete [OF example_ids example_order, of pass_parse example_world "{}"]
    unfolding v by simp
  from example_id_list example_order v m show ?thesis
    by (intro conjI)
qed



end
